theory Spec2Isabelle
  imports Complex_Main
begin

section \<open>OpenID token validation of pkg/iam/openid/jwt.go\<close>

text \<open>
  The theory embeds \<^verbatim>\<open>pkg/iam/openid/jwt.go\<close>: the key store
  (\<^verbatim>\<open>JWKSArgs\<close>, \<^verbatim>\<open>PopulatePublicKey\<close>, \<^verbatim>\<open>LookupConfig\<close>), the expiry policy
  (\<^verbatim>\<open>GetDefaultExpiration\<close>, \<^verbatim>\<open>expToInt64\<close>) and the validator (\<^verbatim>\<open>Validate\<close>).
  Go values of type \<^verbatim>\<open>int64\<close> and \<^verbatim>\<open>time.Duration\<close> are integers with the range
  checks of the source written out; a Go \<^verbatim>\<open>error\<close> is a value of the type \<open>error\<close>;
  a run-time panic is the error value \<open>Panic\<close>.
\<close>

subsection \<open>Integers and durations\<close>

definition minInt64 :: int where
  "minInt64 = - (2 ^ 63)"

definition maxInt64 :: int where
  "maxInt64 = 2 ^ 63 - 1"

definition maxUint64 :: nat where
  "maxUint64 = 2 ^ 64 - 1"

text \<open>\<^verbatim>\<open>time.Duration\<close> counts nanoseconds in an \<^verbatim>\<open>int64\<close>.\<close>

definition Nanosecond :: int where
  "Nanosecond = 1"

definition Second :: int where
  "Second = 1000000000 * Nanosecond"

definition Minute :: int where
  "Minute = 60 * Second"

definition minDuration :: int where
  "minDuration = - (2 ^ 63)"

definition maxDuration :: int where
  "maxDuration = 2 ^ 63 - 1"

subsection \<open>Errors\<close>

text \<open>
  \<^verbatim>\<open>strconv.NumError\<close> carries the function name, the input and \<^verbatim>\<open>ErrSyntax\<close> or
  \<^verbatim>\<open>ErrRange\<close>. The flags of jwt-go's \<^verbatim>\<open>ValidationError\<close> are kept as a list; the
  errors that come from outside this file (transport, JSON decoding, key decoding, URL
  parsing) carry their message.
\<close>

datatype num_err = ErrSyntax | ErrRange

datatype vflag =
    Malformed | Unverifiable | SignatureInvalid | Expired | IssuedAt | NotValidYet
  | ClaimsInvalid

datatype error =
    ErrInvalidDuration
  | ErrTokenExpired
  | NumError string string num_err
  | TransportError string
  | StatusError string
  | JSONError string
  | KeyError string
  | URLError string
  | KidError
  | ValidationError "vflag list"
  | Panic string

subsection \<open>strconv.ParseInt in base 10 with 64 bits\<close>

text \<open>
  \<^verbatim>\<open>strconv.ParseUint(s, 10, 64)\<close>: every byte must be a decimal digit; the
  accumulator is checked against the cutoff before the multiplication and against the
  maximum after the addition, and the first failing byte decides between a syntax and a
  range error.
\<close>

definition digit_val :: "char \<Rightarrow> nat option" where
  "digit_val c =
     (let n = (of_char c :: nat) in if 48 \<le> n \<and> n \<le> 57 then Some (n - 48) else None)"

fun ParseUint_loop :: "nat \<Rightarrow> string \<Rightarrow> num_err + nat" where
  "ParseUint_loop n [] = Inr n"
| "ParseUint_loop n (c # cs) =
     (case digit_val c of
        None \<Rightarrow> Inl ErrSyntax
      | Some d \<Rightarrow>
          if n \<ge> maxUint64 div 10 + 1 then Inl ErrRange
          else if n * 10 + d > maxUint64 then Inl ErrRange
          else ParseUint_loop (n * 10 + d) cs)"

definition ParseUint :: "string \<Rightarrow> num_err + nat" where
  "ParseUint s = (if s = [] then Inl ErrSyntax else ParseUint_loop 0 s)"

text \<open>
  \<^verbatim>\<open>strconv.ParseInt(s, 10, 64)\<close>: an optional sign, then \<^verbatim>\<open>ParseUint\<close>; a range
  error of \<^verbatim>\<open>ParseUint\<close> falls through to the cutoff test with the maximal value.
\<close>

definition ParseInt :: "string \<Rightarrow> num_err + int" where
  "ParseInt s =
     (if s = [] then Inl ErrSyntax
      else
        let neg = (hd s = CHR ''-'');
            s' = (if hd s = CHR ''+'' \<or> hd s = CHR ''-'' then tl s else s)
        in case ParseUint s' of
             Inl ErrSyntax \<Rightarrow> Inl ErrSyntax
           | r \<Rightarrow>
               let un = (case r of Inr u \<Rightarrow> u | Inl _ \<Rightarrow> maxUint64);
                   cutoff = (2 ^ 63 :: nat)
               in if \<not> neg \<and> un \<ge> cutoff then Inl ErrRange
                  else if neg \<and> un > cutoff then Inl ErrRange
                  else Inr (if neg then - int un else int un))"

subsection \<open>The expiry policy\<close>

text \<open>\<^verbatim>\<open>GetDefaultExpiration\<close> (jwt.go, lines 121 to 138).\<close>

definition GetDefaultExpiration :: "string \<Rightarrow> error + int" where
  "GetDefaultExpiration dsecs =
     (let defaultExpiryDuration = 60 * Minute in
      if dsecs \<noteq> [] then
        (case ParseInt dsecs of
           Inl err \<Rightarrow> Inl ErrInvalidDuration
         | Inr expirySecs \<Rightarrow>
             if expirySecs < 900 \<or> expirySecs > 43200 then Inl ErrInvalidDuration
             else Inr (expirySecs * Second))
      else Inr defaultExpiryDuration)"

subsection \<open>Claim values and the coercion of the expiry claim\<close>

text \<open>
  A claim value is what \<^verbatim>\<open>encoding/json\<close> decodes into an \<^verbatim>\<open>interface{}\<close>, together
  with the two further dynamic types that \<^verbatim>\<open>expToInt64\<close> switches on. A \<^verbatim>\<open>float64\<close>
  that comes out of a JSON document is finite, so it is kept as the real number it
  denotes. The conversion \<^verbatim>\<open>int64(exp)\<close> truncates towards zero; where the truncated
  value does not fit, Go leaves the result to the implementation, and the model takes
  the smallest \<^verbatim>\<open>int64\<close>, as amd64 does.
\<close>

datatype Value =
    VNil
  | VBool bool
  | VString string
  | VFloat64 real
  | VInt64 int
  | VJSONNumber string
  | VMap "(string \<times> Value) list"
  | VSlice "Value list"

definition float64_to_int64 :: "real \<Rightarrow> int" where
  "float64_to_int64 x =
     (let t = (if x < 0 then \<lceil>x\<rceil> else \<lfloor>x\<rfloor>)
      in if minInt64 \<le> t \<and> t \<le> maxInt64 then t else minInt64)"

text \<open>\<^verbatim>\<open>expToInt64\<close> (jwt.go, lines 103 to 118).\<close>

fun expToInt64 :: "Value \<Rightarrow> error + int" where
  "expToInt64 (VFloat64 exp0) = Inr (float64_to_int64 exp0)"
| "expToInt64 (VInt64 exp0) = Inr exp0"
| "expToInt64 (VJSONNumber exp0) =
     (case ParseInt exp0 of
        Inl err \<Rightarrow> Inl (NumError ''ParseInt'' exp0 err)
      | Inr expAt \<Rightarrow> Inr expAt)"
| "expToInt64 _ = Inl ErrInvalidDuration"

subsection \<open>Instants\<close>

text \<open>
  An instant is a count of nanoseconds since the Unix epoch. \<^verbatim>\<open>time.Unix(sec, 0)\<close>
  stores \<^verbatim>\<open>sec + unixToInternal\<close> in an \<^verbatim>\<open>int64\<close>, which wraps for the largest
  \<^verbatim>\<open>sec\<close>. \<^verbatim>\<open>Time.Sub\<close> returns the difference, or the smallest or largest
  \<^verbatim>\<open>Duration\<close> when the difference does not fit. \<^verbatim>\<open>Time.Add\<close> and \<^verbatim>\<open>Time.Unix\<close>
  are exact for the readings of a wall clock, which are decades, not billions of years,
  away from the epoch.
\<close>

definition unixToInternal :: int where
  "unixToInternal = 62135596800"

definition wrap64 :: "int \<Rightarrow> int" where
  "wrap64 x = (x + 2 ^ 63) mod 2 ^ 64 - 2 ^ 63"

definition time_Unix :: "int \<Rightarrow> int" where
  "time_Unix sec = (wrap64 (sec + unixToInternal) - unixToInternal) * Second"

definition Time_Sub :: "int \<Rightarrow> int \<Rightarrow> int" where
  "Time_Sub t u =
     (let d = t - u
      in if d < minDuration then minDuration else if d > maxDuration then maxDuration else d)"

definition Time_Add :: "int \<Rightarrow> int \<Rightarrow> int" where
  "Time_Add t d = t + d"

definition Time_Unix :: "int \<Rightarrow> int" where
  "Time_Unix t = t div Second"

subsection \<open>strconv.FormatInt\<close>

text \<open>
  \<^verbatim>\<open>strconv.FormatInt(i, base)\<close> panics unless \<^verbatim>\<open>2 <= base <= 36\<close>, the length of
  its digit string; otherwise it writes the digits of the magnitude, most significant
  first, after the sign.
\<close>

definition digits :: string where
  "digits = ''0123456789abcdefghijklmnopqrstuvwxyz''"

function formatBits :: "nat \<Rightarrow> nat \<Rightarrow> string" where
  "formatBits u base =
     (if base < 2 then []
      else if u < base then [digits ! u]
      else formatBits (u div base) base @ [digits ! (u mod base)])"
  by pat_completeness auto
termination
  by (relation "measure (\<lambda>(u, base). u)") auto

definition FormatInt :: "int \<Rightarrow> nat \<Rightarrow> error + string" where
  "FormatInt i base =
     (if base < 2 \<or> base > length digits
      then Inl (Panic ''strconv: illegal AppendInt/FormatInt base'')
      else Inr ((if i < 0 then ''-'' else []) @ formatBits (nat \<bar>i\<bar>) base))"

subsection \<open>The key store\<close>

text \<open>
  Modelled from the spec: the key-set document and its entries (\<^verbatim>\<open>JWKS\<close> and \<^verbatim>\<open>JWK\<close>
  are declared in another file of the package): a list of entries, each with a key
  identifier, a key type, an algorithm and the algorithm-specific material. The decoded
  key (\<^verbatim>\<open>crypto.PublicKey\<close>) is opaque.
\<close>

record JWK =
  Kid :: string
  Kty :: string
  Alg :: string
  Material :: string

record JWKS =
  Keys :: "JWK list"

datatype PublicKey = PublicKey string

record Response =
  StatusCode :: nat
  Status :: string
  Body :: string

text \<open>
  \<^verbatim>\<open>JWKSArgs\<close> (jwt.go, lines 35 to 40). The URL is kept as its string form; a field
  that is \<^verbatim>\<open>nil\<close> is \<open>None\<close>. The cleanup function is a capability whose only effect
  is the release of the response body, so only its presence is kept.
\<close>

record JWKSArgs =
  URL :: "string option"
  publicKeys :: "string \<rightharpoonup> PublicKey"
  transport :: "string option"
  closeRespFn :: "unit option"

record JWT =
  args :: JWKSArgs

subsection \<open>Tokens\<close>

text \<open>
  A token as jwt-go's \<^verbatim>\<open>Parser.ParseUnverified\<close> returns it: the signing method named by
  the header's \<^verbatim>\<open>alg\<close>, the header, the claims (\<^verbatim>\<open>MapClaims\<close>), the signature segment and
  the \<^verbatim>\<open>Valid\<close> flag, which is false until the parser has verified the token.
\<close>

record Token =
  Raw :: string
  Method :: string
  Header :: "string \<rightharpoonup> Value"
  Claims :: "string \<rightharpoonup> Value"
  Signature :: string
  Valid :: bool

subsection \<open>The world outside the file\<close>

text \<open>
  What the file calls and does not define is a parameter of the model: the HTTP
  exchange of \<^verbatim>\<open>client.Get\<close> (by transport and URL), the JSON decoding of the response
  body, the decoding of a key entry (\<^verbatim>\<open>JWK.DecodePublicKey\<close>), jwt-go's decoding of the
  token segments, its validation of the temporal claims and its signature check by the
  token's method, the successive readings of \<^verbatim>\<open>time.Now()\<close> inside \<^verbatim>\<open>Validate\<close>, the
  process environment and \<^verbatim>\<open>xnet.ParseURL\<close>.
\<close>

record World =
  http_Get :: "string option \<Rightarrow> string \<Rightarrow> error + Response"
  json_Decode :: "string \<Rightarrow> error + JWKS"
  DecodePublicKey :: "JWK \<Rightarrow> error + PublicKey"
  ParseUnverified :: "string \<Rightarrow> error + Token"
  claims_Valid :: "(string \<rightharpoonup> Value) \<Rightarrow> vflag list"
  Verify :: "Token \<Rightarrow> PublicKey option \<Rightarrow> bool"
  Now :: "nat \<Rightarrow> int"
  LookupEnv :: "string \<Rightarrow> string option"
  ParseURL :: "string \<Rightarrow> error + string"

text \<open>
  The effects a claim speaks about are recorded as events, in the order in which they
  happen: a call of \<^verbatim>\<open>PopulatePublicKey\<close>, the network request, the release of the
  response body, a call of \<^verbatim>\<open>ParseWithClaims\<close>, the read of
  \<^verbatim>\<open>p.args.publicKeys[kid]\<close> in the key function, and the session duration that
  \<^verbatim>\<open>Validate\<close> holds in \<^verbatim>\<open>defaultExpiryDuration\<close> when it leaves line 181, which it
  does not return.
\<close>

datatype event =
    EvRefresh
  | EvGet string
  | EvClose
  | EvParse
  | EvKeyLookup string
  | EvDuration int

subsection \<open>PopulatePublicKey\<close>

text \<open>
  The loop of lines 66 to 73: each entry is decoded and stored under its identifier in
  the map that line 65 has already assigned to \<^verbatim>\<open>r.publicKeys\<close>; the first entry that
  fails to decode ends the function with its error.
\<close>

fun populate_keys ::
  "(JWK \<Rightarrow> error + PublicKey) \<Rightarrow> JWK list \<Rightarrow> JWKSArgs \<Rightarrow> error option \<times> JWKSArgs" where
  "populate_keys dec [] r = (None, r)"
| "populate_keys dec (key # keys) r =
     (case dec key of
        Inl err \<Rightarrow> (Some err, r)
      | Inr publicKey \<Rightarrow>
          populate_keys dec keys (r\<lparr>publicKeys := (publicKeys r)(Kid key \<mapsto> publicKey)\<rparr>))"

text \<open>
  \<^verbatim>\<open>PopulatePublicKey\<close> (jwt.go, lines 43 to 76). The deferred call of line 55 runs on
  every exit after a successful request; calling a \<^verbatim>\<open>nil\<close> function there panics.
\<close>

definition PopulatePublicKey :: "World \<Rightarrow> JWKSArgs \<Rightarrow> error option \<times> JWKSArgs \<times> event list" where
  "PopulatePublicKey w r =
     (case URL r of
        None \<Rightarrow> (None, r, [EvRefresh])
      | Some u \<Rightarrow>
          (case http_Get w (transport r) u of
             Inl err \<Rightarrow> (Some err, r, [EvRefresh, EvGet u])
           | Inr resp \<Rightarrow>
               (let (err, r') =
                      (if StatusCode resp \<noteq> 200 then (Some (StatusError (Status resp)), r)
                       else case json_Decode w (Body resp) of
                              Inl err \<Rightarrow> (Some err, r)
                            | Inr jwk \<Rightarrow>
                                populate_keys (DecodePublicKey w) (Keys jwk)
                                  (r\<lparr>publicKeys := Map.empty\<rparr>))
                in case closeRespFn r of
                     None \<Rightarrow>
                       (Some (Panic ''invalid memory address or nil pointer dereference''),
                        r', [EvRefresh, EvGet u])
                   | Some _ \<Rightarrow> (err, r', [EvRefresh, EvGet u, EvClose]))))"

subsection \<open>Validate\<close>

text \<open>The key function of lines 145 to 151.\<close>

definition keyFuncCallback :: "JWKSArgs \<Rightarrow> Token \<Rightarrow> (error + PublicKey option) \<times> event list" where
  "keyFuncCallback r jwtToken =
     (case Header jwtToken ''kid'' of
        Some (VString kid) \<Rightarrow> (Inr (publicKeys r kid), [EvKeyLookup kid])
      | _ \<Rightarrow> (Inl KidError, []))"

text \<open>
  jwt-go's \<^verbatim>\<open>Parser.ParseWithClaims\<close> (version 3): the segments are decoded; when the
  parser has a list of valid methods, a token of another method is refused before the
  key function is called; the key function is called; the claims are validated and the
  signature is checked with the key; the token is returned valid when neither failed.
  The package-level \<^verbatim>\<open>jwtgo.ParseWithClaims\<close> runs a fresh parser, which has no list
  of valid methods.
\<close>

definition ParseWithClaims ::
  "World \<Rightarrow> string list option \<Rightarrow> JWKSArgs \<Rightarrow> string \<Rightarrow> (error + Token) \<times> event list" where
  "ParseWithClaims w valid_methods r tokenString =
     (case ParseUnverified w tokenString of
        Inl err \<Rightarrow> (Inl err, [EvParse])
      | Inr token \<Rightarrow>
          if (case valid_methods of None \<Rightarrow> False | Some ms \<Rightarrow> Method token \<notin> set ms)
          then (Inl (ValidationError [SignatureInvalid]), [EvParse])
          else
            (case keyFuncCallback r token of
               (Inl err, evs) \<Rightarrow> (Inl (ValidationError [Unverifiable]), EvParse # evs)
             | (Inr key, evs) \<Rightarrow>
                 (let vErr = claims_Valid w (Claims token) @
                             (if Verify w token key then [] else [SignatureInvalid])
                  in if vErr = [] then (Inr (token\<lparr>Valid := True\<rparr>), EvParse # evs)
                     else (Inl (ValidationError vErr), EvParse # evs))))"

text \<open>
  Lines 179 to 181: the clamp of the duration to the token's remaining validity. The
  result is the duration and the number of clock readings made so far.
\<close>

definition clampDuration :: "World \<Rightarrow> int \<Rightarrow> int \<Rightarrow> int \<times> nat" where
  "clampDuration w expAt defaultExpiryDuration =
     (if Time_Sub (time_Unix expAt) (Now w 0) < defaultExpiryDuration
      then (Time_Sub (time_Unix expAt) (Now w 1), 2)
      else (defaultExpiryDuration, 1))"

text \<open>
  Lines 165 to 188: what \<^verbatim>\<open>Validate\<close> does with a token that has parsed. The
  duration it holds after the clamp is recorded as an event.
\<close>

definition Validate_claims ::
  "World \<Rightarrow> Token \<Rightarrow> string \<Rightarrow> (error + (string \<rightharpoonup> Value)) \<times> event list" where
  "Validate_claims w jwtToken dsecs =
     (let claims = Claims jwtToken in
      if \<not> Valid jwtToken then (Inl ErrTokenExpired, [])
      else
        case expToInt64 (case claims ''exp'' of None \<Rightarrow> VNil | Some v \<Rightarrow> v) of
          Inl err \<Rightarrow> (Inl err, [])
        | Inr expAt \<Rightarrow>
            (case GetDefaultExpiration dsecs of
               Inl err \<Rightarrow> (Inl err, [])
             | Inr d \<Rightarrow>
                 (let (defaultExpiryDuration, k) = clampDuration w expAt d;
                      expiry = Time_Unix (Time_Add (Now w k) defaultExpiryDuration)
                  in (if expAt < expiry
                      then (case FormatInt expAt 64 of
                              Inl err \<Rightarrow> Inl err
                            | Inr s \<Rightarrow> Inr (claims(''exp'' \<mapsto> VString s)))
                      else Inr claims,
                      [EvDuration defaultExpiryDuration]))))"

definition ValidMethods :: "string list" where
  "ValidMethods = [''RS256'', ''RS384'', ''RS512'', ''ES256'', ''ES384'', ''ES512'']"

text \<open>
  \<^verbatim>\<open>Validate\<close> (jwt.go, lines 141 to 190). The first attempt runs the parser \<^verbatim>\<open>jp\<close>
  with the list of valid methods; the retry of line 159 runs the package-level
  function.
\<close>

definition Validate ::
  "World \<Rightarrow> JWT \<Rightarrow> string \<Rightarrow> string \<Rightarrow> (error + (string \<rightharpoonup> Value)) \<times> JWT \<times> event list" where
  "Validate w p token dsecs =
     (case ParseWithClaims w (Some ValidMethods) (args p) token of
        (Inr jwtToken, evs1) \<Rightarrow>
          (case Validate_claims w jwtToken dsecs of (res, evs4) \<Rightarrow> (res, p, evs1 @ evs4))
      | (Inl err1, evs1) \<Rightarrow>
          (case PopulatePublicKey w (args p) of
             (Some err, r', evs2) \<Rightarrow> (Inl err, p\<lparr>args := r'\<rparr>, evs1 @ evs2)
           | (None, r', evs2) \<Rightarrow>
               (case ParseWithClaims w None r' token of
                  (Inl err, evs3) \<Rightarrow> (Inl err, p\<lparr>args := r'\<rparr>, evs1 @ evs2 @ evs3)
                | (Inr jwtToken, evs3) \<Rightarrow>
                    (case Validate_claims w jwtToken dsecs of
                       (res, evs4) \<Rightarrow> (res, p\<lparr>args := r'\<rparr>, evs1 @ evs2 @ evs3 @ evs4)))))"

subsection \<open>LookupConfig\<close>

text \<open>
  Modelled from the spec: \<^verbatim>\<open>env.Get\<close> of \<^verbatim>\<open>pkg/env\<close>, the override of an explicit
  value by a lookup keyed by a fixed variable name.
\<close>

definition env_Get :: "World \<Rightarrow> string \<Rightarrow> string \<Rightarrow> string" where
  "env_Get w key defaultValue = (case LookupEnv w key of Some v \<Rightarrow> v | None \<Rightarrow> defaultValue)"

definition EnvIAMJWKSURL :: string where
  "EnvIAMJWKSURL = ''MINIO_IAM_JWKS_URL''"

text \<open>
  \<^verbatim>\<open>LookupConfig\<close> (jwt.go, lines 203 to 223). The transport and the cleanup function
  it receives are not stored in \<^verbatim>\<open>args\<close>.
\<close>

definition LookupConfig ::
  "World \<Rightarrow> JWKSArgs \<Rightarrow> string option \<Rightarrow> unit option \<Rightarrow> (JWKSArgs \<times> error option) \<times> event list" where
  "LookupConfig w args0 transport0 closeRespFn0 =
     (let urlStr = (case URL args0 of None \<Rightarrow> [] | Some u \<Rightarrow> u);
          jwksURL = env_Get w EnvIAMJWKSURL urlStr
      in if jwksURL = [] then ((args0, None), [])
         else case ParseURL w jwksURL of
                Inl err \<Rightarrow> ((args0, Some err), [])
              | Inr u \<Rightarrow>
                  (case PopulatePublicKey w (args0\<lparr>URL := Some u\<rparr>) of
                     (err, args1, evs) \<Rightarrow> ((args1, err), evs)))"

subsection \<open>The attempts of a call\<close>

text \<open>
  The refreshes and the verification attempts among the events of a call, in their
  order.
\<close>

definition attempts :: "event list \<Rightarrow> event list" where
  "attempts evs = filter (\<lambda>e. e = EvRefresh \<or> e = EvParse) evs"

text \<open>The session durations among the events of a call.\<close>

fun durations :: "event list \<Rightarrow> int list" where
  "durations [] = []"
| "durations (EvDuration d # evs) = d # durations evs"
| "durations (e # evs) = durations evs"

subsection \<open>The expiry policy in the words of the specification\<close>

text \<open>
  The specification's \<^verbatim>\<open>Resolve\<close>: an empty request gives 3600 seconds; any other
  request is read as a base-10 integer, an optional sign followed by one or more
  decimal digits whose value is positional, and gives that many seconds when the value
  lies in the closed range from 900 to 43200, and \<^verbatim>\<open>InvalidDuration\<close> otherwise.
\<close>

definition is_digit :: "char \<Rightarrow> bool" where
  "is_digit c = (c = CHR ''0'' \<or> c \<in> set ''123456789'')"

definition digit_of :: "char \<Rightarrow> nat" where
  "digit_of c = of_char c - 48"

definition decimal_value :: "string \<Rightarrow> nat" where
  "decimal_value ds = foldl (\<lambda>a c. 10 * a + digit_of c) 0 ds"

definition base10_integer :: "string \<Rightarrow> int option" where
  "base10_integer s =
     (let neg = (s \<noteq> [] \<and> hd s = CHR ''-'');
          ds = (if s \<noteq> [] \<and> (hd s = CHR ''+'' \<or> hd s = CHR ''-'') then tl s else s)
      in if ds \<noteq> [] \<and> list_all is_digit ds
         then Some (if neg then - int (decimal_value ds) else int (decimal_value ds))
         else None)"

definition Resolve :: "string \<Rightarrow> error + int" where
  "Resolve requested =
     (if requested = [] then Inr (3600 * Second)
      else case base10_integer requested of
             None \<Rightarrow> Inl ErrInvalidDuration
           | Some n \<Rightarrow>
               if 900 \<le> n \<and> n \<le> 43200 then Inr (n * Second) else Inl ErrInvalidDuration)"

subsection \<open>A concrete provider, for evaluation\<close>

text \<open>
  A provider that publishes one RSA key under the identifier \<^verbatim>\<open>k1\<close>, four tokens
  that name this key, and a clock that stands at 900 seconds after the epoch. The RSA
  key verifies the tokens signed with the provider's private key by an RSA method
  (\<^verbatim>\<open>RS256\<close>, \<^verbatim>\<open>PS256\<close>); it is not a key for \<^verbatim>\<open>HS256\<close>. The temporal validation is
  jwt-go's test of the expiry claim against the clock.
\<close>

definition jwk1 :: JWK where
  "jwk1 = \<lparr>Kid = ''k1'', Kty = ''RSA'', Alg = ''RS256'', Material = ''n1e1''\<rparr>"

definition jwk2 :: JWK where
  "jwk2 = \<lparr>Kid = ''k2'', Kty = ''RSA'', Alg = ''RS256'', Material = ''n2e2''\<rparr>"

definition jwk3 :: JWK where
  "jwk3 = \<lparr>Kid = ''k3'', Kty = ''OKP'', Alg = ''EdDSA'', Material = ''x3''\<rparr>"

definition key1 :: PublicKey where
  "key1 = PublicKey ''n1e1''"

definition key0 :: PublicKey where
  "key0 = PublicKey ''n0e0''"

definition token_of :: "string \<Rightarrow> string \<Rightarrow> real \<Rightarrow> Token" where
  "token_of raw alg expiry =
     \<lparr>Raw = raw, Method = alg,
      Header = [''alg'' \<mapsto> VString alg, ''kid'' \<mapsto> VString ''k1''],
      Claims = [''sub'' \<mapsto> VString ''alice'', ''exp'' \<mapsto> VFloat64 expiry],
      Signature = ''sig'', Valid = False\<rparr>"

definition provider :: World where
  "provider =
     \<lparr>http_Get = (\<lambda>t u. Inr \<lparr>StatusCode = 200, Status = ''200 OK'', Body = ''keys''\<rparr>),
      json_Decode = (\<lambda>b. Inr \<lparr>Keys = [jwk1]\<rparr>),
      DecodePublicKey =
        (\<lambda>k. if Kty k = ''RSA'' then Inr (PublicKey (Material k))
             else Inl (KeyError ''unknown key type'')),
      ParseUnverified =
        (\<lambda>s. if s = ''rs'' then Inr (token_of ''rs'' ''RS256'' 1000)
             else if s = ''hs'' then Inr (token_of ''hs'' ''HS256'' 1000)
             else if s = ''ps'' then Inr (token_of ''ps'' ''PS256'' 1000)
             else if s = ''old'' then Inr (token_of ''old'' ''RS256'' 800)
             else Inl (ValidationError [Malformed])),
      claims_Valid =
        (\<lambda>c. case c ''exp'' of
               Some (VFloat64 x) \<Rightarrow>
                 if float64_to_int64 x \<noteq> 0 \<and> float64_to_int64 x < 900 then [Expired] else []
             | _ \<Rightarrow> []),
      Verify = (\<lambda>t k. k = Some key1 \<and> (Method t = ''RS256'' \<or> Method t = ''PS256'')),
      Now = (\<lambda>k. 900 * Second),
      LookupEnv = (\<lambda>k. None),
      ParseURL = (\<lambda>s. Inr s)\<rparr>"

definition cached :: JWKSArgs where
  "cached =
     \<lparr>URL = Some ''https://idp/keys'', publicKeys = [''k1'' \<mapsto> key1],
      transport = None, closeRespFn = Some ()\<rparr>"

definition configured :: JWKSArgs where
  "configured =
     \<lparr>URL = Some ''https://idp/keys'', publicKeys = Map.empty,
      transport = None, closeRespFn = Some ()\<rparr>"

definition unconfigured :: JWKSArgs where
  "unconfigured =
     \<lparr>URL = None, publicKeys = Map.empty, transport = None, closeRespFn = Some ()\<rparr>"

text \<open>
  The provider after a key rotation: the key set now lists a new RSA key and a key of
  a type that \<^verbatim>\<open>DecodePublicKey\<close> does not decode.
\<close>

definition provider_rotated :: World where
  "provider_rotated = provider\<lparr>json_Decode := (\<lambda>b. Inr \<lparr>Keys = [jwk2, jwk3]\<rparr>)\<rparr>"

text \<open>
  The same provider seen by a process whose clock moves on by one second between the
  second and the third reading.
\<close>

definition provider_late :: World where
  "provider_late =
     provider\<lparr>Now := (\<lambda>k. if k < 2 then 900 * Second else 901 * Second)\<rparr>"


section \<open>The expiry policy\<close>

lemma digit_val_is_digit: "digit_val c = (if is_digit c then Some (digit_of c) else None)"
proof (cases c)
  case (Char b0 b1 b2 b3 b4 b5 b6 b7)
  then show ?thesis
    by (cases b0; cases b1; cases b2; cases b3; cases b4; cases b5; cases b6; cases b7)
       (simp_all add: digit_val_def is_digit_def digit_of_def)
qed

lemma foldl_dec_ge: "n \<le> foldl (\<lambda>a c. 10 * a + digit_of c) n ds"
proof (induction ds arbitrary: n)
  case Nil
  then show ?case by simp
next
  case (Cons c cs)
  have "n \<le> 10 * n + digit_of c" by simp
  also have "\<dots> \<le> foldl (\<lambda>a c. 10 * a + digit_of c) (10 * n + digit_of c) cs"
    by (rule Cons.IH)
  finally show ?case by simp
qed

lemma ParseUint_loop_digits:
  "list_all is_digit ds \<Longrightarrow> n \<le> maxUint64 \<Longrightarrow>
   ParseUint_loop n ds =
     (if foldl (\<lambda>a c. 10 * a + digit_of c) n ds \<le> maxUint64
      then Inr (foldl (\<lambda>a c. 10 * a + digit_of c) n ds) else Inl ErrRange)"
proof (induction ds arbitrary: n)
  case Nil
  then show ?case by simp
next
  case (Cons c cs)
  let ?n1 = "10 * n + digit_of c"
  have dv: "digit_val c = Some (digit_of c)"
    using Cons.prems by (simp add: digit_val_is_digit)
  have ge: "?n1 \<le> foldl (\<lambda>a c. 10 * a + digit_of c) ?n1 cs"
    by (rule foldl_dec_ge)
  have ih: "?n1 \<le> maxUint64 \<Longrightarrow> ParseUint_loop ?n1 cs =
     (if foldl (\<lambda>a c. 10 * a + digit_of c) ?n1 cs \<le> maxUint64
      then Inr (foldl (\<lambda>a c. 10 * a + digit_of c) ?n1 cs) else Inl ErrRange)"
    using Cons.prems by (intro Cons.IH) simp
  show ?case
  proof (cases "n \<ge> maxUint64 div 10 + 1")
    case True
    then have "?n1 > maxUint64" by simp
    with ge True dv show ?thesis by simp
  next
    case False
    show ?thesis
    proof (cases "?n1 > maxUint64")
      case True
      with ge False dv show ?thesis by (simp add: mult.commute)
    next
      case ok: False
      with False dv ih show ?thesis by (simp add: mult.commute)
    qed
  qed
qed

lemma ParseUint_loop_nondigit:
  "\<not> list_all is_digit ds \<Longrightarrow> \<exists>e. ParseUint_loop n ds = Inl e"
proof (induction ds arbitrary: n)
  case Nil
  then show ?case by simp
next
  case (Cons c cs)
  then show ?case by (cases "is_digit c") (simp_all add: digit_val_is_digit)
qed

lemma ParseUint_digits:
  "ds \<noteq> [] \<Longrightarrow> list_all is_digit ds \<Longrightarrow>
   ParseUint ds = (if decimal_value ds \<le> maxUint64 then Inr (decimal_value ds) else Inl ErrRange)"
  by (simp add: ParseUint_def decimal_value_def ParseUint_loop_digits maxUint64_def)

lemma ParseUint_not_number:
  assumes "ds = [] \<or> \<not> list_all is_digit ds"
  shows "ParseUint ds = Inl ErrSyntax \<or> ParseUint ds = Inl ErrRange"
proof (cases "ds = []")
  case True
  then show ?thesis by (simp add: ParseUint_def)
next
  case False
  with assms obtain e where "ParseUint_loop 0 ds = Inl e"
    using ParseUint_loop_nondigit by blast
  with False show ?thesis by (cases e) (simp_all add: ParseUint_def)
qed

lemma ParseInt_not_integer:
  assumes "s \<noteq> []" and "base10_integer s = None"
  shows "\<exists>e. ParseInt s = Inl e"
proof -
  let ?ds = "if hd s = CHR ''+'' \<or> hd s = CHR ''-'' then tl s else s"
  from assms have "?ds = [] \<or> \<not> list_all is_digit ?ds"
    by (auto simp: base10_integer_def Let_def split: if_splits)
  then have "ParseUint ?ds = Inl ErrSyntax \<or> ParseUint ?ds = Inl ErrRange"
    by (rule ParseUint_not_number)
  then show ?thesis
    using assms(1) by (auto simp: ParseInt_def Let_def maxUint64_def)
qed

lemma ParseInt_integer:
  assumes "base10_integer s = Some v"
  shows "ParseInt s = (if minInt64 \<le> v \<and> v \<le> maxInt64 then Inr v else Inl ErrRange)"
proof -
  let ?neg = "hd s = CHR ''-''"
  let ?ds = "if hd s = CHR ''+'' \<or> hd s = CHR ''-'' then tl s else s"
  from assms have ne: "s \<noteq> []"
    by (auto simp: base10_integer_def Let_def split: if_splits)
  from assms ne have ds: "?ds \<noteq> []" "list_all is_digit ?ds"
    by (auto simp: base10_integer_def Let_def split: if_splits)
  from assms ne have v: "v = (if ?neg then - int (decimal_value ?ds) else int (decimal_value ?ds))"
    by (auto simp: base10_integer_def Let_def split: if_splits)
  have pu: "ParseUint ?ds =
      (if decimal_value ?ds \<le> maxUint64 then Inr (decimal_value ?ds) else Inl ErrRange)"
    using ds by (rule ParseUint_digits)
  show ?thesis
  proof (cases "decimal_value ?ds \<le> maxUint64")
    case True
    with pu have "ParseUint ?ds = Inr (decimal_value ?ds)" by simp
    then show ?thesis
      using ne v by (auto simp: ParseInt_def Let_def minInt64_def maxInt64_def)
  next
    case False
    with pu have "ParseUint ?ds = Inl ErrRange" by simp
    moreover from False have "\<not> (minInt64 \<le> v \<and> v \<le> maxInt64)"
      using v by (auto simp: minInt64_def maxInt64_def maxUint64_def)
    ultimately show ?thesis
      using ne by (auto simp: ParseInt_def Let_def maxUint64_def)
  qed
qed

text \<open>
  C5. For every requested-duration string, \<^verbatim>\<open>GetDefaultExpiration\<close> returns what the
  specification's \<^verbatim>\<open>Resolve\<close> returns.
\<close>

theorem GetDefaultExpiration_refines_Resolve:
  "GetDefaultExpiration dsecs = Resolve dsecs"
proof (cases "dsecs = []")
  case True
  then show ?thesis
    by (simp add: GetDefaultExpiration_def Resolve_def Minute_def Second_def)
next
  case ne: False
  show ?thesis
  proof (cases "base10_integer dsecs")
    case None
    with ne obtain e where "ParseInt dsecs = Inl e"
      using ParseInt_not_integer by blast
    with ne None show ?thesis
      by (simp add: GetDefaultExpiration_def Resolve_def)
  next
    case (Some v)
    then have "ParseInt dsecs = (if minInt64 \<le> v \<and> v \<le> maxInt64 then Inr v else Inl ErrRange)"
      by (rule ParseInt_integer)
    with ne Some show ?thesis
      by (auto simp: GetDefaultExpiration_def Resolve_def minInt64_def maxInt64_def)
  qed
qed

lemma Resolve_examples:
  "Resolve [] = Inr (3600 * Second)"
  "Resolve ''900'' = Inr (900 * Second)"
  "Resolve ''43200'' = Inr (43200 * Second)"
  "Resolve ''899'' = Inl ErrInvalidDuration"
  "Resolve ''43201'' = Inl ErrInvalidDuration"
  "Resolve ''15m'' = Inl ErrInvalidDuration"
  by (simp_all add: Resolve_def base10_integer_def is_digit_def decimal_value_def
        digit_of_def Let_def)

theorem GetDefaultExpiration_refines_Resolve_witness:
  "GetDefaultExpiration [] = Inr (3600 * Second) \<and>
   GetDefaultExpiration ''900'' = Inr (900 * Second) \<and>
   GetDefaultExpiration ''43200'' = Inr (43200 * Second) \<and>
   GetDefaultExpiration ''899'' = Inl ErrInvalidDuration \<and>
   GetDefaultExpiration ''43201'' = Inl ErrInvalidDuration \<and>
   GetDefaultExpiration ''15m'' = Inl ErrInvalidDuration"
  using GetDefaultExpiration_refines_Resolve [of "[]"]
    GetDefaultExpiration_refines_Resolve [of "''900''"]
    GetDefaultExpiration_refines_Resolve [of "''43200''"]
    GetDefaultExpiration_refines_Resolve [of "''899''"]
    GetDefaultExpiration_refines_Resolve [of "''43201''"]
    GetDefaultExpiration_refines_Resolve [of "''15m''"]
  by (simp only: Resolve_examples simp_thms)

section \<open>Evaluation at the concrete provider\<close>

lemmas provider_simps =
  provider_def jwk1_def jwk2_def jwk3_def key1_def key0_def token_of_def cached_def
  configured_def unconfigured_def provider_rotated_def provider_late_def

lemmas time_simps =
  clampDuration_def Time_Sub_def time_Unix_def wrap64_def unixToInternal_def Time_Add_def
  Time_Unix_def Second_def Minute_def Nanosecond_def minDuration_def maxDuration_def

lemmas parse_simps =
  ParseWithClaims_def keyFuncCallback_def ValidMethods_def float64_to_int64_def
  minInt64_def maxInt64_def

section \<open>The key store\<close>

text \<open>
  C10. With no URL configured, \<^verbatim>\<open>PopulatePublicKey\<close> returns no error, leaves the
  arguments, and so the cached keys, as they were, and issues no network request: the
  only event is the call itself.
\<close>

theorem PopulatePublicKey_without_URL:
  "URL r = None \<Longrightarrow>
   PopulatePublicKey w r = (None, r, [EvRefresh]) \<and>
   (\<forall>u. EvGet u \<notin> set (snd (snd (PopulatePublicKey w r))))"
  by (simp add: PopulatePublicKey_def)

theorem PopulatePublicKey_without_URL_witness:
  "URL (cached\<lparr>URL := None\<rparr>) = None \<and>
   PopulatePublicKey provider (cached\<lparr>URL := None\<rparr>) = (None, cached\<lparr>URL := None\<rparr>, [EvRefresh]) \<and>
   publicKeys (fst (snd (PopulatePublicKey provider (cached\<lparr>URL := None\<rparr>)))) ''k1'' = Some key1"
  using PopulatePublicKey_without_URL [of "cached\<lparr>URL := None\<rparr>" provider]
  by (simp add: cached_def)

text \<open>
  C1, at the failing input. The cache holds the key \<^verbatim>\<open>k1\<close>; the provider answers 200
  with a key set that lists the RSA key \<^verbatim>\<open>k2\<close> and then an entry that does not decode.
  \<^verbatim>\<open>PopulatePublicKey\<close> returns the decoding error, and the cache it leaves is the
  partly built set: \<^verbatim>\<open>k1\<close> is gone and \<^verbatim>\<open>k2\<close> is there.
\<close>

theorem PopulatePublicKey_partial_on_key_error:
  "fst (PopulatePublicKey provider_rotated cached) = Some (KeyError ''unknown key type'') \<and>
   publicKeys cached ''k1'' = Some key1 \<and>
   publicKeys cached ''k2'' = None \<and>
   publicKeys (fst (snd (PopulatePublicKey provider_rotated cached))) ''k1'' = None \<and>
   publicKeys (fst (snd (PopulatePublicKey provider_rotated cached))) ''k2'' =
     Some (PublicKey ''n2e2'')"
  by (simp add: PopulatePublicKey_def provider_simps)

section \<open>The coercion of the expiry claim\<close>

text \<open>
  C8, as stated, fails: the JSON number \<^verbatim>\<open>1e3\<close> is a numeric string, and its coercion
  neither succeeds nor fails with \<^verbatim>\<open>ErrInvalidDuration\<close>; it fails with the syntax
  error of \<^verbatim>\<open>strconv.ParseInt\<close>.
\<close>

theorem expToInt64_json_number_counterexample:
  "expToInt64 (VJSONNumber ''1e3'') = Inl (NumError ''ParseInt'' ''1e3'' ErrSyntax)"
  by (simp add: ParseInt_def ParseUint_def digit_val_def maxUint64_def Let_def)


lemma float64_to_int64_truncates:
  assumes "- (2 ^ 63) - 1 < x" and "x < 2 ^ 63"
  shows "minInt64 \<le> float64_to_int64 x \<and> float64_to_int64 x \<le> maxInt64 \<and>
         \<bar>of_int (float64_to_int64 x)\<bar> \<le> \<bar>x\<bar> \<and>
         \<bar>x\<bar> < \<bar>of_int (float64_to_int64 x)\<bar> + 1 \<and>
         0 \<le> of_int (float64_to_int64 x) * x"
proof (cases "x < 0")
  case True
  have lo: "- (2 ^ 63) \<le> \<lceil>x\<rceil>"
  proof -
    have "of_int (- (2 ^ 63) - 1) < x" using assms(1) by simp
    then have "- (2 ^ 63) - 1 < \<lceil>x\<rceil>" by (simp only: less_ceiling_iff)
    then show ?thesis by simp
  qed
  have hi: "\<lceil>x\<rceil> \<le> 0" using True by (simp add: ceiling_le_iff)
  have v: "float64_to_int64 x = \<lceil>x\<rceil>"
    using True lo hi by (simp add: float64_to_int64_def minInt64_def maxInt64_def)
  have c1: "x \<le> of_int \<lceil>x\<rceil>" by (rule le_of_int_ceiling)
  have c2: "of_int \<lceil>x\<rceil> < x + 1" using ceiling_correct [of x] by simp
  have neg: "(of_int \<lceil>x\<rceil> :: real) \<le> 0" using hi by simp
  have "0 \<le> (of_int \<lceil>x\<rceil> :: real) * x"
    using neg True by (simp add: mult_nonpos_nonpos)
  with v lo hi c1 c2 neg True show ?thesis
    by (simp add: minInt64_def maxInt64_def)
next
  case False
  then have nn: "0 \<le> x" by simp
  have hi: "\<lfloor>x\<rfloor> \<le> 2 ^ 63 - 1"
  proof -
    have "x < of_int (2 ^ 63)" using assms(2) by simp
    then have "\<lfloor>x\<rfloor> < 2 ^ 63" by (simp only: floor_less_iff)
    then show ?thesis by simp
  qed
  have lo: "0 \<le> \<lfloor>x\<rfloor>" using nn by simp
  have v: "float64_to_int64 x = \<lfloor>x\<rfloor>"
    using False lo hi by (simp add: float64_to_int64_def minInt64_def maxInt64_def)
  have c1: "of_int \<lfloor>x\<rfloor> \<le> x" by (rule of_int_floor_le)
  have c2: "x < of_int \<lfloor>x\<rfloor> + 1" using floor_correct [of x] by simp
  have pos: "0 \<le> (of_int \<lfloor>x\<rfloor> :: real)" using lo by simp
  have "0 \<le> (of_int \<lfloor>x\<rfloor> :: real) * x" using pos nn by simp
  with v lo hi c1 c2 pos nn show ?thesis
    by (simp add: minInt64_def maxInt64_def)
qed

lemma float64_to_int64_out_of_range:
  assumes "x \<le> - (2 ^ 63) - 1 \<or> 2 ^ 63 \<le> x"
  shows "float64_to_int64 x = minInt64"
proof (cases "x < 0")
  case True
  with assms have "x \<le> of_int (- (2 ^ 63) - 1)" by auto
  then have "\<lceil>x\<rceil> \<le> - (2 ^ 63) - 1" by (simp only: ceiling_le_iff)
  with True show ?thesis
    by (simp add: float64_to_int64_def minInt64_def maxInt64_def)
next
  case False
  with assms have "of_int (2 ^ 63) \<le> x" by auto
  then have "2 ^ 63 \<le> \<lfloor>x\<rfloor>" by (simp only: le_floor_iff)
  with False show ?thesis
    by (simp add: float64_to_int64_def minInt64_def maxInt64_def)
qed


text \<open>
  C8, amended. \<^verbatim>\<open>expToInt64\<close> succeeds on every \<^verbatim>\<open>float64\<close>: when the number
  truncated towards zero fits an \<^verbatim>\<open>int64\<close> the result is that truncation, the integer
  of the number's sign whose magnitude is the largest one not above the number's (the
  number itself when it is integral); when it does not fit, the result is the
  implementation's value, the smallest \<^verbatim>\<open>int64\<close>. It succeeds on an \<^verbatim>\<open>int64\<close>, with
  the number itself, and on a \<^verbatim>\<open>json.Number\<close> whose text is a base-10 integer that
  fits an \<^verbatim>\<open>int64\<close>, with that integer. On a \<^verbatim>\<open>json.Number\<close> of any other text it
  fails with the \<^verbatim>\<open>NumError\<close> of \<^verbatim>\<open>strconv.ParseInt\<close>. On a value of any other shape
  it fails with \<^verbatim>\<open>ErrInvalidDuration\<close>.
\<close>

theorem expToInt64_by_shape:
  "(- (2 ^ 63) - 1 < x \<and> x < 2 ^ 63 \<longrightarrow>
      (\<exists>k. expToInt64 (VFloat64 x) = Inr k \<and> minInt64 \<le> k \<and> k \<le> maxInt64 \<and>
           \<bar>of_int k\<bar> \<le> \<bar>x\<bar> \<and> \<bar>x\<bar> < \<bar>of_int k\<bar> + 1 \<and> 0 \<le> of_int k * x)) \<and>
   (x \<le> - (2 ^ 63) - 1 \<or> 2 ^ 63 \<le> x \<longrightarrow> expToInt64 (VFloat64 x) = Inr minInt64) \<and>
   (minInt64 \<le> n \<and> n \<le> maxInt64 \<longrightarrow> expToInt64 (VFloat64 (of_int n)) = Inr n) \<and>
   expToInt64 (VInt64 n) = Inr n \<and>
   (base10_integer s = Some m \<and> minInt64 \<le> m \<and> m \<le> maxInt64 \<longrightarrow>
      expToInt64 (VJSONNumber s) = Inr m) \<and>
   (base10_integer s = None \<or>
    (\<exists>m. base10_integer s = Some m \<and> (m < minInt64 \<or> maxInt64 < m)) \<longrightarrow>
      (\<exists>e. expToInt64 (VJSONNumber s) = Inl (NumError ''ParseInt'' s e))) \<and>
   ((\<forall>y. v \<noteq> VFloat64 y) \<and> (\<forall>k. v \<noteq> VInt64 k) \<and> (\<forall>t. v \<noteq> VJSONNumber t) \<longrightarrow>
      expToInt64 v = Inl ErrInvalidDuration)"
proof (intro conjI impI)
  assume "- (2 ^ 63) - 1 < x \<and> x < 2 ^ 63"
  then have "minInt64 \<le> float64_to_int64 x \<and> float64_to_int64 x \<le> maxInt64 \<and>
         \<bar>of_int (float64_to_int64 x)\<bar> \<le> \<bar>x\<bar> \<and>
         \<bar>x\<bar> < \<bar>of_int (float64_to_int64 x)\<bar> + 1 \<and>
         0 \<le> of_int (float64_to_int64 x) * x"
    by (simp add: float64_to_int64_truncates)
  then show "\<exists>k. expToInt64 (VFloat64 x) = Inr k \<and> minInt64 \<le> k \<and> k \<le> maxInt64 \<and>
           \<bar>of_int k\<bar> \<le> \<bar>x\<bar> \<and> \<bar>x\<bar> < \<bar>of_int k\<bar> + 1 \<and> 0 \<le> of_int k * x"
    by simp
next
  assume "x \<le> - (2 ^ 63) - 1 \<or> 2 ^ 63 \<le> x"
  then show "expToInt64 (VFloat64 x) = Inr minInt64"
    by (simp add: float64_to_int64_out_of_range)
next
  assume "minInt64 \<le> n \<and> n \<le> maxInt64"
  then show "expToInt64 (VFloat64 (of_int n)) = Inr n"
    by (simp add: float64_to_int64_def)
next
  show "expToInt64 (VInt64 n) = Inr n" by simp
next
  assume a: "base10_integer s = Some m \<and> minInt64 \<le> m \<and> m \<le> maxInt64"
  then have "ParseInt s = Inr m" by (simp add: ParseInt_integer)
  then show "expToInt64 (VJSONNumber s) = Inr m" by simp
next
  assume a: "base10_integer s = None \<or>
    (\<exists>m. base10_integer s = Some m \<and> (m < minInt64 \<or> maxInt64 < m))"
  have "\<exists>e. ParseInt s = Inl e"
  proof (cases "base10_integer s")
    case None
    show ?thesis
    proof (cases "s = []")
      case True
      then show ?thesis by (simp add: ParseInt_def)
    next
      case False
      with None show ?thesis using ParseInt_not_integer by blast
    qed
  next
    case (Some m)
    with a have "m < minInt64 \<or> maxInt64 < m" by simp
    with Some show ?thesis by (auto simp: ParseInt_integer)
  qed
  then show "\<exists>e. expToInt64 (VJSONNumber s) = Inl (NumError ''ParseInt'' s e)" by auto
next
  assume "(\<forall>y. v \<noteq> VFloat64 y) \<and> (\<forall>k. v \<noteq> VInt64 k) \<and> (\<forall>t. v \<noteq> VJSONNumber t)"
  then show "expToInt64 v = Inl ErrInvalidDuration" by (cases v) simp_all
qed

lemma base10_integer_examples:
  "base10_integer ''1000'' = Some 1000"
  "base10_integer ''1.5'' = None"
  "base10_integer ''-7'' = Some (- 7)"
  "base10_integer ''9223372036854775808'' = Some 9223372036854775808"
  by (simp_all add: base10_integer_def is_digit_def decimal_value_def digit_of_def Let_def)

theorem expToInt64_by_shape_witness:
  "expToInt64 (VFloat64 (2001 / 2)) = Inr 1000 \<and>
   expToInt64 (VFloat64 (- 3 / 2)) = Inr (- 1) \<and>
   expToInt64 (VFloat64 (- 1 / 2)) = Inr 0 \<and>
   expToInt64 (VFloat64 (10 ^ 19)) = Inr minInt64 \<and>
   expToInt64 (VFloat64 (- (10 ^ 19))) = Inr minInt64 \<and>
   expToInt64 (VFloat64 1000) = Inr 1000 \<and>
   expToInt64 (VInt64 1000) = Inr 1000 \<and>
   expToInt64 (VJSONNumber ''1000'') = Inr 1000 \<and>
   expToInt64 (VJSONNumber ''-7'') = Inr (- 7) \<and>
   (\<exists>e. expToInt64 (VJSONNumber ''1.5'') = Inl (NumError ''ParseInt'' ''1.5'' e)) \<and>
   (\<exists>e. expToInt64 (VJSONNumber ''9223372036854775808'') =
          Inl (NumError ''ParseInt'' ''9223372036854775808'' e)) \<and>
   expToInt64 (VString ''1000'') = Inl ErrInvalidDuration \<and>
   expToInt64 VNil = Inl ErrInvalidDuration"
  using expToInt64_by_shape [of "2001 / 2" 1000 "''1000''" 1000 "VString ''1000''"]
    expToInt64_by_shape [of "- 3 / 2" 0 "''1.5''" 0 VNil]
    expToInt64_by_shape [of "- 1 / 2" 0 "''-7''" "- 7" VNil]
    expToInt64_by_shape [of "10 ^ 19" 0 "''9223372036854775808''" 0 VNil]
    expToInt64_by_shape [of "- (10 ^ 19)" 0 "''1.5''" 0 VNil]
  by (simp add: base10_integer_examples float64_to_int64_def minInt64_def maxInt64_def)

section \<open>The validator\<close>

lemmas validate_simps =
  Validate_def Validate_claims_def GetDefaultExpiration_def FormatInt_def digits_def Let_def

text \<open>
  C7, at the failing input. The token \<^verbatim>\<open>old\<close> is signed with the cached key and its
  expiry (800) lies before the clock (900). Both parses fail with jwt-go's validation
  error, which \<^verbatim>\<open>Validate\<close> returns at line 161; the test of line 165 is never
  reached, and the error is not \<^verbatim>\<open>ErrTokenExpired\<close>.
\<close>

theorem Validate_expired_token_error:
  "Verify provider (token_of ''old'' ''RS256'' 800) (publicKeys cached ''k1'') \<and>
   claims_Valid provider (Claims (token_of ''old'' ''RS256'' 800)) = [Expired] \<and>
   fst (Validate provider \<lparr>args = cached\<rparr> ''old'' []) = Inl (ValidationError [Expired]) \<and>
   fst (Validate provider \<lparr>args = cached\<rparr> ''old'' []) \<noteq> Inl ErrTokenExpired"
  by (simp add: validate_simps parse_simps PopulatePublicKey_def provider_simps)

text \<open>
  C3, at the failing inputs. The token \<^verbatim>\<open>hs\<close> declares \<^verbatim>\<open>HS256\<close>: the first parse
  refuses it without a key lookup, the refresh succeeds (with no URL configured it
  returns at once), and the retry of line 159, which has no list of valid methods,
  looks the key \<^verbatim>\<open>k1\<close> up before it fails. The
  token \<^verbatim>\<open>ps\<close> declares \<^verbatim>\<open>PS256\<close>, which is outside the list too: the retry verifies
  it with the RSA key and \<^verbatim>\<open>Validate\<close> accepts it.
\<close>

theorem Validate_retry_ignores_valid_methods:
  "''HS256'' \<notin> set ValidMethods \<and> ''PS256'' \<notin> set ValidMethods \<and>
   Validate provider \<lparr>args = unconfigured\<rparr> ''hs'' [] =
     (Inl (ValidationError [SignatureInvalid]), \<lparr>args = unconfigured\<rparr>,
      [EvParse, EvRefresh, EvParse, EvKeyLookup ''k1'']) \<and>
   Validate provider \<lparr>args = cached\<rparr> ''hs'' [] =
     (Inl (ValidationError [SignatureInvalid]), \<lparr>args = cached\<rparr>,
      [EvParse, EvRefresh, EvGet ''https://idp/keys'', EvClose, EvParse, EvKeyLookup ''k1'']) \<and>
   fst (Validate provider \<lparr>args = cached\<rparr> ''ps'' []) =
     Inr [''sub'' \<mapsto> VString ''alice'', ''exp'' \<mapsto> VFloat64 1000]"
  by (simp add: validate_simps parse_simps PopulatePublicKey_def provider_simps
        time_simps)

text \<open>
  C2, at the failing input. The token \<^verbatim>\<open>rs\<close> expires at 1000; the clock reads 900 at
  lines 179 and 180 and 901 at line 183, so that the expiry computed there is 1001
  and the branch of line 185 is taken. \<^verbatim>\<open>strconv.FormatInt(expAt, 64)\<close> panics:
  no claim set is returned, with or without the original expiry. With a clock that
  stands still the same token is accepted and its claims are returned as decoded.
\<close>

theorem Validate_expiry_overwrite_panics:
  "fst (Validate provider_late \<lparr>args = cached\<rparr> ''rs'' []) =
     Inl (Panic ''strconv: illegal AppendInt/FormatInt base'') \<and>
   fst (Validate provider \<lparr>args = cached\<rparr> ''rs'' []) =
     Inr [''sub'' \<mapsto> VString ''alice'', ''exp'' \<mapsto> VFloat64 1000]"
  by (simp add: validate_simps parse_simps PopulatePublicKey_def provider_simps time_simps)


subsection \<open>The events of the operations\<close>

lemma attempts_append: "attempts (xs @ ys) = attempts xs @ attempts ys"
  by (simp add: attempts_def)

lemma attempts_PopulatePublicKey: "attempts (snd (snd (PopulatePublicKey w r))) = [EvRefresh]"
  by (simp add: PopulatePublicKey_def attempts_def Let_def
      split: option.splits sum.splits prod.splits)

lemma attempts_ParseWithClaims: "attempts (snd (ParseWithClaims w vm r s)) = [EvParse]"
  by (simp add: ParseWithClaims_def keyFuncCallback_def attempts_def Let_def
      split: option.splits sum.splits prod.splits Value.splits)

lemma attempts_Validate_claims: "attempts (snd (Validate_claims w t dsecs)) = []"
  by (simp add: Validate_claims_def attempts_def Let_def split: sum.splits prod.splits)

lemma count_list_attempts:
  "count_list (attempts evs) EvRefresh = count_list evs EvRefresh"
  "count_list (attempts evs) EvParse = count_list evs EvParse"
  by (induction evs) (simp_all add: attempts_def)

lemma ParseWithClaims_Inr:
  assumes "fst (ParseWithClaims w vm r s) = Inr t"
  shows "\<exists>tok. ParseUnverified w s = Inr tok \<and> t = tok\<lparr>Valid := True\<rparr>"
  using assms
  by (auto simp: ParseWithClaims_def keyFuncCallback_def Let_def
      split: option.splits sum.splits prod.splits Value.splits if_splits)

lemma Validate_cases:
  "Validate w p token dsecs =
     (case ParseWithClaims w (Some ValidMethods) (args p) token of
        (Inr t, evs1) \<Rightarrow>
          (fst (Validate_claims w t dsecs), p, evs1 @ snd (Validate_claims w t dsecs))
      | (Inl e1, evs1) \<Rightarrow>
          (case PopulatePublicKey w (args p) of
             (Some e, r', evs2) \<Rightarrow> (Inl e, p\<lparr>args := r'\<rparr>, evs1 @ evs2)
           | (None, r', evs2) \<Rightarrow>
               (case ParseWithClaims w None r' token of
                  (Inl e, evs3) \<Rightarrow> (Inl e, p\<lparr>args := r'\<rparr>, evs1 @ evs2 @ evs3)
                | (Inr t, evs3) \<Rightarrow>
                    (fst (Validate_claims w t dsecs), p\<lparr>args := r'\<rparr>,
                     evs1 @ evs2 @ evs3 @ snd (Validate_claims w t dsecs)))))"
  by (simp add: Validate_def split: prod.splits sum.splits option.splits)

lemma Validate_attempts_eq:
  "attempts (snd (snd (Validate w p token dsecs))) =
     (case fst (ParseWithClaims w (Some ValidMethods) (args p) token) of
        Inr t \<Rightarrow> [EvParse]
      | Inl e1 \<Rightarrow>
          (case fst (PopulatePublicKey w (args p)) of
             Some e \<Rightarrow> [EvParse, EvRefresh]
           | None \<Rightarrow> [EvParse, EvRefresh, EvParse]))"
proof -
  obtain res1 evs1 where p1: "ParseWithClaims w (Some ValidMethods) (args p) token = (res1, evs1)"
    by (cases "ParseWithClaims w (Some ValidMethods) (args p) token")
  obtain err r' evs2 where pp: "PopulatePublicKey w (args p) = (err, r', evs2)"
    by (cases "PopulatePublicKey w (args p)")
  obtain res3 evs3 where p3: "ParseWithClaims w None r' token = (res3, evs3)"
    by (cases "ParseWithClaims w None r' token")
  have a1: "attempts evs1 = [EvParse]"
    using attempts_ParseWithClaims [of w "Some ValidMethods" "args p" token] p1 by simp
  have a2: "attempts evs2 = [EvRefresh]"
    using attempts_PopulatePublicKey [of w "args p"] pp by simp
  have a3: "attempts evs3 = [EvParse]"
    using attempts_ParseWithClaims [of w None r' token] p3 by simp
  have a4: "attempts (snd (Validate_claims w t dsecs)) = []" for t
    by (rule attempts_Validate_claims)
  show ?thesis
    by (cases res1; cases err; cases res3)
       (simp_all add: Validate_cases p1 pp p3 attempts_append a1 a2 a3 a4)
qed


subsection \<open>One refresh and one retry\<close>

text \<open>
  C6. A call of \<^verbatim>\<open>Validate\<close> refreshes the key store at most once and parses the
  token at most twice. When the first parse succeeds, there is no refresh and no
  retry. When it fails, there is exactly one refresh; if the refresh fails, its error
  is the result and the token is not parsed again; if it succeeds, the token is parsed
  exactly once more, and an error of that retry is the result.
\<close>

theorem Validate_one_refresh_one_retry:
  "count_list (snd (snd (Validate w p token dsecs))) EvRefresh \<le> 1 \<and>
   count_list (snd (snd (Validate w p token dsecs))) EvParse \<le> 2 \<and>
   attempts (snd (snd (Validate w p token dsecs))) =
     (case fst (ParseWithClaims w (Some ValidMethods) (args p) token) of
        Inr t \<Rightarrow> [EvParse]
      | Inl e1 \<Rightarrow>
          (case fst (PopulatePublicKey w (args p)) of
             Some e \<Rightarrow> [EvParse, EvRefresh]
           | None \<Rightarrow> [EvParse, EvRefresh, EvParse])) \<and>
   (\<forall>e1 e. fst (ParseWithClaims w (Some ValidMethods) (args p) token) = Inl e1 \<and>
        fst (PopulatePublicKey w (args p)) = Some e \<longrightarrow>
        fst (Validate w p token dsecs) = Inl e) \<and>
   (\<forall>e1 e. fst (ParseWithClaims w (Some ValidMethods) (args p) token) = Inl e1 \<and>
        fst (PopulatePublicKey w (args p)) = None \<and>
        fst (ParseWithClaims w None (fst (snd (PopulatePublicKey w (args p)))) token) = Inl e \<longrightarrow>
        fst (Validate w p token dsecs) = Inl e)"
proof -
  let ?evs = "snd (snd (Validate w p token dsecs))"
  have att: "attempts ?evs =
     (case fst (ParseWithClaims w (Some ValidMethods) (args p) token) of
        Inr t \<Rightarrow> [EvParse]
      | Inl e1 \<Rightarrow>
          (case fst (PopulatePublicKey w (args p)) of
             Some e \<Rightarrow> [EvParse, EvRefresh]
           | None \<Rightarrow> [EvParse, EvRefresh, EvParse]))"
    by (rule Validate_attempts_eq)
  have "count_list (attempts ?evs) EvRefresh \<le> 1" "count_list (attempts ?evs) EvParse \<le> 2"
    unfolding att by (simp_all split: sum.splits option.splits)
  then have counts: "count_list ?evs EvRefresh \<le> 1" "count_list ?evs EvParse \<le> 2"
    by (simp_all add: count_list_attempts)
  have refresh_error: "fst (Validate w p token dsecs) = Inl e"
    if "fst (ParseWithClaims w (Some ValidMethods) (args p) token) = Inl e1"
      and "fst (PopulatePublicKey w (args p)) = Some e" for e1 e
    using that by (auto simp: Validate_def split: prod.splits sum.splits option.splits)
  have retry_error: "fst (Validate w p token dsecs) = Inl e"
    if "fst (ParseWithClaims w (Some ValidMethods) (args p) token) = Inl e1"
      and "fst (PopulatePublicKey w (args p)) = None"
      and "fst (ParseWithClaims w None (fst (snd (PopulatePublicKey w (args p)))) token) = Inl e"
    for e1 e
    using that by (auto simp: Validate_def split: prod.splits sum.splits option.splits)
  from counts att refresh_error retry_error show ?thesis by blast
qed

theorem Validate_one_refresh_one_retry_witness:
  "fst (ParseWithClaims provider (Some ValidMethods) configured ''rs'') =
     Inl (ValidationError [SignatureInvalid]) \<and>
   fst (PopulatePublicKey provider configured) = None \<and>
   attempts (snd (snd (Validate provider \<lparr>args = configured\<rparr> ''rs'' []))) =
     [EvParse, EvRefresh, EvParse] \<and>
   count_list (snd (snd (Validate provider \<lparr>args = configured\<rparr> ''rs'' []))) EvRefresh \<le> 1 \<and>
   count_list (snd (snd (Validate provider \<lparr>args = configured\<rparr> ''rs'' []))) EvParse \<le> 2"
proof -
  have first: "fst (ParseWithClaims provider (Some ValidMethods) configured ''rs'') =
     Inl (ValidationError [SignatureInvalid])"
    by (simp add: parse_simps provider_simps)
  have refresh: "fst (PopulatePublicKey provider configured) = None"
    by (simp add: PopulatePublicKey_def provider_simps)
  show ?thesis
    using Validate_one_refresh_one_retry [of provider "\<lparr>args = configured\<rparr>" "''rs''" "[]"]
    by (simp add: first refresh)
qed

subsection \<open>The clamp of the session duration\<close>

lemma wrap64_id: "minInt64 \<le> x \<Longrightarrow> x \<le> maxInt64 \<Longrightarrow> wrap64 x = x"
  by (simp add: wrap64_def minInt64_def maxInt64_def)

lemma time_Unix_exact:
  "minInt64 \<le> sec + unixToInternal \<Longrightarrow> sec + unixToInternal \<le> maxInt64 \<Longrightarrow>
   time_Unix sec = sec * Second"
  by (simp add: time_Unix_def wrap64_id)


lemma Time_Sub_le_difference: "minDuration \<le> t - u \<Longrightarrow> Time_Sub t u \<le> t - u"
  by (simp add: Time_Sub_def Let_def minDuration_def maxDuration_def)

lemma durations_append: "durations (xs @ ys) = durations xs @ durations ys"
  by (induction xs rule: durations.induct) simp_all

lemma durations_ParseWithClaims: "durations (snd (ParseWithClaims w vm r s)) = []"
  by (simp add: ParseWithClaims_def keyFuncCallback_def Let_def
      split: option.splits sum.splits prod.splits Value.splits)

lemma durations_PopulatePublicKey: "durations (snd (snd (PopulatePublicKey w r))) = []"
  by (simp add: PopulatePublicKey_def Let_def split: option.splits sum.splits prod.splits)

lemma Validate_accepted:
  assumes "fst (Validate w p token dsecs) = Inr cs"
  shows "\<exists>vm r t. fst (ParseWithClaims w vm r token) = Inr t \<and>
           fst (Validate_claims w t dsecs) = Inr cs \<and>
           durations (snd (snd (Validate w p token dsecs))) =
             durations (snd (Validate_claims w t dsecs))"
proof -
  obtain res1 evs1 where p1: "ParseWithClaims w (Some ValidMethods) (args p) token = (res1, evs1)"
    by (cases "ParseWithClaims w (Some ValidMethods) (args p) token")
  obtain err r' evs2 where pp: "PopulatePublicKey w (args p) = (err, r', evs2)"
    by (cases "PopulatePublicKey w (args p)")
  obtain res3 evs3 where p3: "ParseWithClaims w None r' token = (res3, evs3)"
    by (cases "ParseWithClaims w None r' token")
  have d1: "durations evs1 = []"
    using durations_ParseWithClaims [of w "Some ValidMethods" "args p" token] p1 by simp
  have d2: "durations evs2 = []"
    using durations_PopulatePublicKey [of w "args p"] pp by simp
  have d3: "durations evs3 = []"
    using durations_ParseWithClaims [of w None r' token] p3 by simp
  show ?thesis
  proof (cases res1)
    case (Inr t)
    with assms p1 have "fst (Validate_claims w t dsecs) = Inr cs"
      by (simp add: Validate_cases)
    moreover from Inr p1 have "fst (ParseWithClaims w (Some ValidMethods) (args p) token) = Inr t"
      by simp
    moreover from Inr p1 d1 have "durations (snd (snd (Validate w p token dsecs))) =
        durations (snd (Validate_claims w t dsecs))"
      by (simp add: Validate_cases durations_append)
    ultimately show ?thesis by blast
  next
    case (Inl e1)
    with assms p1 pp p3 obtain t where t: "res3 = Inr t" "err = None"
      and "fst (Validate_claims w t dsecs) = Inr cs"
      by (cases err; cases res3) (simp_all add: Validate_cases)
    moreover from t p3 have "fst (ParseWithClaims w None r' token) = Inr t"
      by simp
    moreover from Inl t p1 pp p3 d1 d2 d3 have "durations (snd (snd (Validate w p token dsecs))) =
        durations (snd (Validate_claims w t dsecs))"
      by (simp add: Validate_cases durations_append)
    ultimately show ?thesis by blast
  qed
qed






section \<open>Configuration\<close>

text \<open>
  C9, as stated, fails: \<^verbatim>\<open>LookupConfig\<close> with a configured URL and an empty key set
  calls \<^verbatim>\<open>PopulatePublicKey\<close> at configuration time; the request is issued and the
  returned arguments hold the provider's key before any call of \<^verbatim>\<open>Validate\<close>. The
  request is issued as well when the arguments carry no cleanup function.
\<close>

theorem LookupConfig_refresh_counterexample:
  "publicKeys configured ''k1'' = None \<and>
   LookupConfig provider configured None None =
     ((configured\<lparr>publicKeys := [''k1'' \<mapsto> key1]\<rparr>, None),
      [EvRefresh, EvGet ''https://idp/keys'', EvClose]) \<and>
   snd (LookupConfig provider (configured\<lparr>closeRespFn := None\<rparr>) None (Some ())) =
     [EvRefresh, EvGet ''https://idp/keys'']"
  by (simp add: LookupConfig_def env_Get_def PopulatePublicKey_def provider_simps Let_def)

text \<open>
  C9, amended. \<^verbatim>\<open>LookupConfig\<close> leaves the arguments and the key set as they are
  and performs no refresh when the effective URL (the environment's value, or else the
  configured one) is empty or does not parse; when it parses, \<^verbatim>\<open>LookupConfig\<close>
  performs exactly one refresh at configuration time and returns its key set and its
  error. A call of \<^verbatim>\<open>Validate\<close> whose first parse succeeds performs no refresh and
  leaves the key store as it is; one whose first parse fails performs exactly one.
\<close>

theorem LookupConfig_refresh_iff_URL:
  "(env_Get w EnvIAMJWKSURL (case URL a of None \<Rightarrow> [] | Some u \<Rightarrow> u) = [] \<longrightarrow>
      LookupConfig w a t c = ((a, None), [])) \<and>
   (\<forall>e. env_Get w EnvIAMJWKSURL (case URL a of None \<Rightarrow> [] | Some u \<Rightarrow> u) \<noteq> [] \<and>
        ParseURL w (env_Get w EnvIAMJWKSURL (case URL a of None \<Rightarrow> [] | Some u \<Rightarrow> u)) = Inl e \<longrightarrow>
      LookupConfig w a t c = ((a, Some e), [])) \<and>
   (\<forall>u. env_Get w EnvIAMJWKSURL (case URL a of None \<Rightarrow> [] | Some u \<Rightarrow> u) \<noteq> [] \<and>
        ParseURL w (env_Get w EnvIAMJWKSURL (case URL a of None \<Rightarrow> [] | Some u \<Rightarrow> u)) = Inr u \<longrightarrow>
      LookupConfig w a t c =
        ((fst (snd (PopulatePublicKey w (a\<lparr>URL := Some u\<rparr>))),
          fst (PopulatePublicKey w (a\<lparr>URL := Some u\<rparr>))),
         snd (snd (PopulatePublicKey w (a\<lparr>URL := Some u\<rparr>)))) \<and>
      attempts (snd (LookupConfig w a t c)) = [EvRefresh]) \<and>
   (\<forall>tok. fst (ParseWithClaims w (Some ValidMethods) (args p) token) = Inr tok \<longrightarrow>
      fst (snd (Validate w p token dsecs)) = p \<and>
      attempts (snd (snd (Validate w p token dsecs))) = [EvParse]) \<and>
   (\<forall>e. fst (ParseWithClaims w (Some ValidMethods) (args p) token) = Inl e \<longrightarrow>
      count_list (snd (snd (Validate w p token dsecs))) EvRefresh = 1)"
proof -
  let ?j = "env_Get w EnvIAMJWKSURL (case URL a of None \<Rightarrow> [] | Some u \<Rightarrow> u)"
  have none: "LookupConfig w a t c = ((a, None), [])" if "?j = []"
    using that by (simp add: LookupConfig_def)
  have bad: "LookupConfig w a t c = ((a, Some e), [])" if "?j \<noteq> [] \<and> ParseURL w ?j = Inl e" for e
    using that by (simp add: LookupConfig_def)
  have good: "LookupConfig w a t c =
        ((fst (snd (PopulatePublicKey w (a\<lparr>URL := Some u\<rparr>))),
          fst (PopulatePublicKey w (a\<lparr>URL := Some u\<rparr>))),
         snd (snd (PopulatePublicKey w (a\<lparr>URL := Some u\<rparr>)))) \<and>
      attempts (snd (LookupConfig w a t c)) = [EvRefresh]"
    if "?j \<noteq> [] \<and> ParseURL w ?j = Inr u" for u
    using that attempts_PopulatePublicKey [of w "a\<lparr>URL := Some u\<rparr>"]
    by (cases "PopulatePublicKey w (a\<lparr>URL := Some u\<rparr>)") (simp add: LookupConfig_def)
  have hit: "fst (snd (Validate w p token dsecs)) = p \<and>
      attempts (snd (snd (Validate w p token dsecs))) = [EvParse]"
    if "fst (ParseWithClaims w (Some ValidMethods) (args p) token) = Inr tok" for tok
  proof -
    from that have "fst (snd (Validate w p token dsecs)) = p"
      by (auto simp: Validate_def split: prod.splits sum.splits option.splits)
    moreover from that have "attempts (snd (snd (Validate w p token dsecs))) = [EvParse]"
      by (simp add: Validate_attempts_eq)
    ultimately show ?thesis by simp
  qed
  have miss: "count_list (snd (snd (Validate w p token dsecs))) EvRefresh = 1"
    if "fst (ParseWithClaims w (Some ValidMethods) (args p) token) = Inl e" for e
  proof -
    have "count_list (attempts (snd (snd (Validate w p token dsecs)))) EvRefresh = 1"
      unfolding Validate_attempts_eq using that by (simp split: option.splits)
    then show ?thesis by (simp add: count_list_attempts)
  qed
  from none bad good hit miss show ?thesis by blast
qed

theorem LookupConfig_refresh_iff_URL_witness:
  "env_Get provider EnvIAMJWKSURL (case URL unconfigured of None \<Rightarrow> [] | Some u \<Rightarrow> u) = [] \<and>
   LookupConfig provider unconfigured None None = ((unconfigured, None), []) \<and>
   fst (ParseWithClaims provider (Some ValidMethods) (args \<lparr>args = cached\<rparr>) ''rs'') =
     Inr ((token_of ''rs'' ''RS256'' 1000)\<lparr>Valid := True\<rparr>) \<and>
   fst (snd (Validate provider \<lparr>args = cached\<rparr> ''rs'' [])) = \<lparr>args = cached\<rparr> \<and>
   attempts (snd (snd (Validate provider \<lparr>args = cached\<rparr> ''rs'' []))) = [EvParse]"
proof -
  have url: "env_Get provider EnvIAMJWKSURL (case URL unconfigured of None \<Rightarrow> [] | Some u \<Rightarrow> u) = []"
    by (simp add: env_Get_def provider_simps)
  have first: "fst (ParseWithClaims provider (Some ValidMethods) (args \<lparr>args = cached\<rparr>) ''rs'') =
     Inr ((token_of ''rs'' ''RS256'' 1000)\<lparr>Valid := True\<rparr>)"
    by (simp add: parse_simps provider_simps)
  from LookupConfig_refresh_iff_URL
         [of provider unconfigured None None "\<lparr>args = cached\<rparr>" "''rs''" "[]"] url first
  show ?thesis by simp
qed

section \<open>What a refresh does to the cached keys\<close>

lemma populate_keys_fields:
  "URL (snd (populate_keys dec ks r)) = URL r \<and>
   transport (snd (populate_keys dec ks r)) = transport r \<and>
   closeRespFn (snd (populate_keys dec ks r)) = closeRespFn r"
  by (induction ks arbitrary: r) (simp_all split: sum.splits)

lemma populate_keys_all_decoded:
  assumes "\<forall>k \<in> set ks. \<exists>pk. dec k = Inr pk"
  shows "fst (populate_keys dec ks r) = None \<and>
         dom (publicKeys (snd (populate_keys dec ks r))) = dom (publicKeys r) \<union> Kid ` set ks \<and>
         (\<forall>kid pk. publicKeys (snd (populate_keys dec ks r)) kid = Some pk \<longrightarrow>
            publicKeys r kid = Some pk \<or> (\<exists>k \<in> set ks. Kid k = kid \<and> dec k = Inr pk))"
  using assms
proof (induction ks arbitrary: r)
  case Nil
  then show ?case by simp
next
  case (Cons k ks)
  then obtain pk where pk: "dec k = Inr pk" by auto
  let ?r = "r\<lparr>publicKeys := (publicKeys r)(Kid k \<mapsto> pk)\<rparr>"
  from Cons.prems have rest: "\<forall>k \<in> set ks. \<exists>pk. dec k = Inr pk" by simp
  note ih = Cons.IH [OF rest, of ?r]
  have step: "populate_keys dec (k # ks) r = populate_keys dec ks ?r"
    using pk by simp
  from ih have "fst (populate_keys dec (k # ks) r) = None"
    unfolding step by simp
  moreover from ih have
    "dom (publicKeys (snd (populate_keys dec (k # ks) r))) = dom (publicKeys r) \<union> Kid ` set (k # ks)"
    unfolding step by auto
  moreover have "publicKeys r kid = Some pk' \<or> (\<exists>k' \<in> set (k # ks). Kid k' = kid \<and> dec k' = Inr pk')"
    if "publicKeys (snd (populate_keys dec (k # ks) r)) kid = Some pk'" for kid pk'
  proof -
    from that ih have "publicKeys ?r kid = Some pk' \<or> (\<exists>k' \<in> set ks. Kid k' = kid \<and> dec k' = Inr pk')"
      unfolding step by blast
    then show ?thesis
      using pk by (auto split: if_splits)
  qed
  ultimately show ?case by blast
qed


text \<open>
  With a URL configured: a transport error, a status other than 200 and a document
  that does not decode leave the arguments, and so the cached keys, as they were; when
  every listed entry decodes, the new key set holds exactly the listed identifiers,
  each with a key decoded from an entry of that identifier, and nothing of the old
  set.
\<close>

theorem PopulatePublicKey_by_outcome:
  assumes "URL r = Some u"
  shows
   "(\<forall>e. http_Get w (transport r) u = Inl e \<longrightarrow>
       PopulatePublicKey w r = (Some e, r, [EvRefresh, EvGet u])) \<and>
    (\<forall>resp. http_Get w (transport r) u = Inr resp \<and> StatusCode resp \<noteq> 200 \<longrightarrow>
       fst (snd (PopulatePublicKey w r)) = r \<and>
       (closeRespFn r \<noteq> None \<longrightarrow> fst (PopulatePublicKey w r) = Some (StatusError (Status resp)))) \<and>
    (\<forall>resp e. http_Get w (transport r) u = Inr resp \<and> StatusCode resp = 200 \<and>
         json_Decode w (Body resp) = Inl e \<longrightarrow>
       fst (snd (PopulatePublicKey w r)) = r \<and>
       (closeRespFn r \<noteq> None \<longrightarrow> fst (PopulatePublicKey w r) = Some e)) \<and>
    (\<forall>resp jwk. http_Get w (transport r) u = Inr resp \<and> StatusCode resp = 200 \<and>
         json_Decode w (Body resp) = Inr jwk \<and>
         (\<forall>k \<in> set (Keys jwk). \<exists>pk. DecodePublicKey w k = Inr pk) \<longrightarrow>
       dom (publicKeys (fst (snd (PopulatePublicKey w r)))) = Kid ` set (Keys jwk) \<and>
       (\<forall>kid pk. publicKeys (fst (snd (PopulatePublicKey w r))) kid = Some pk \<longrightarrow>
          (\<exists>k \<in> set (Keys jwk). Kid k = kid \<and> DecodePublicKey w k = Inr pk)) \<and>
       (closeRespFn r \<noteq> None \<longrightarrow> fst (PopulatePublicKey w r) = None))"
proof (intro conjI allI impI)
  fix e assume "http_Get w (transport r) u = Inl e"
  with assms show "PopulatePublicKey w r = (Some e, r, [EvRefresh, EvGet u])"
    by (simp add: PopulatePublicKey_def)
next
  fix resp assume a: "http_Get w (transport r) u = Inr resp \<and> StatusCode resp \<noteq> 200"
  with assms show "fst (snd (PopulatePublicKey w r)) = r"
    by (simp add: PopulatePublicKey_def split: option.splits)
  assume "closeRespFn r \<noteq> None"
  with assms a show "fst (PopulatePublicKey w r) = Some (StatusError (Status resp))"
    by (auto simp: PopulatePublicKey_def split: option.splits)
next
  fix resp e
  assume a: "http_Get w (transport r) u = Inr resp \<and> StatusCode resp = 200 \<and>
         json_Decode w (Body resp) = Inl e"
  with assms show "fst (snd (PopulatePublicKey w r)) = r"
    by (simp add: PopulatePublicKey_def split: option.splits)
  assume "closeRespFn r \<noteq> None"
  with assms a show "fst (PopulatePublicKey w r) = Some e"
    by (auto simp: PopulatePublicKey_def split: option.splits)
next
  fix resp jwk
  assume a: "http_Get w (transport r) u = Inr resp \<and> StatusCode resp = 200 \<and>
         json_Decode w (Body resp) = Inr jwk \<and>
         (\<forall>k \<in> set (Keys jwk). \<exists>pk. DecodePublicKey w k = Inr pk)"
  let ?res = "populate_keys (DecodePublicKey w) (Keys jwk) (r\<lparr>publicKeys := Map.empty\<rparr>)"
  from a have all: "\<forall>k \<in> set (Keys jwk). \<exists>pk. DecodePublicKey w k = Inr pk" by simp
  note built = populate_keys_all_decoded [OF all, of "r\<lparr>publicKeys := Map.empty\<rparr>"]
  have state: "fst (snd (PopulatePublicKey w r)) = snd ?res"
    using assms a by (simp add: PopulatePublicKey_def split: option.splits prod.splits)
  from built show "dom (publicKeys (fst (snd (PopulatePublicKey w r)))) = Kid ` set (Keys jwk)"
    unfolding state by simp
  {
    fix kid pk
    assume "publicKeys (fst (snd (PopulatePublicKey w r))) kid = Some pk"
    with built show "\<exists>k \<in> set (Keys jwk). Kid k = kid \<and> DecodePublicKey w k = Inr pk"
      unfolding state by auto
  }
  assume "closeRespFn r \<noteq> None"
  with assms a built show "fst (PopulatePublicKey w r) = None"
    by (auto simp: PopulatePublicKey_def split: option.splits prod.splits)
qed

theorem PopulatePublicKey_by_outcome_witness:
  "URL (cached\<lparr>publicKeys := [''k0'' \<mapsto> key0]\<rparr>) = Some ''https://idp/keys'' \<and>
   fst (PopulatePublicKey provider (cached\<lparr>publicKeys := [''k0'' \<mapsto> key0]\<rparr>)) = None \<and>
   dom (publicKeys (fst (snd (PopulatePublicKey provider (cached\<lparr>publicKeys := [''k0'' \<mapsto> key0]\<rparr>))))) =
     {''k1''}"
proof -
  let ?r = "cached\<lparr>publicKeys := [''k0'' \<mapsto> key0]\<rparr>"
  have url: "URL ?r = Some ''https://idp/keys''"
    by (simp add: cached_def)
  have get: "http_Get provider (transport ?r) ''https://idp/keys'' =
      Inr \<lparr>StatusCode = 200, Status = ''200 OK'', Body = ''keys''\<rparr>"
    by (simp add: provider_def)
  have doc: "json_Decode provider ''keys'' = Inr \<lparr>Keys = [jwk1]\<rparr>"
    by (simp add: provider_def)
  have dec: "\<forall>k \<in> set [jwk1]. \<exists>pk. DecodePublicKey provider k = Inr pk"
    by (simp add: provider_def jwk1_def)
  have cl: "closeRespFn ?r \<noteq> None"
    by (simp add: cached_def)
  from PopulatePublicKey_by_outcome [OF url, of provider] get doc dec cl
  show ?thesis by (auto simp: url jwk1_def)
qed

section \<open>What an accepted call returns\<close>

lemma Validate_claims_unchanged:
  assumes "fst (Validate_claims w t dsecs) = Inr cs"
  shows "cs = Claims t"
  using assms
  by (auto simp: Validate_claims_def FormatInt_def digits_def Let_def
      split: if_splits sum.splits prod.splits)

text \<open>
  Whatever the clock does, the claim set that \<^verbatim>\<open>Validate\<close> returns for a token it
  accepts is the token's decoded claim set, the expiry claim included: the only
  statement that changes it, line 185, panics.
\<close>

theorem Validate_returns_decoded_claims:
  assumes "fst (Validate w p token dsecs) = Inr cs"
  shows "\<exists>tok. ParseUnverified w token = Inr tok \<and> cs = Claims tok"
proof -
  from assms obtain vm r t where
    parsed: "fst (ParseWithClaims w vm r token) = Inr t" and
    accepted: "fst (Validate_claims w t dsecs) = Inr cs"
    using Validate_accepted by blast
  from parsed obtain tok where "ParseUnverified w token = Inr tok" "t = tok\<lparr>Valid := True\<rparr>"
    using ParseWithClaims_Inr by blast
  moreover from accepted have "cs = Claims t" by (rule Validate_claims_unchanged)
  ultimately show ?thesis by simp
qed

theorem Validate_returns_decoded_claims_witness:
  "fst (Validate provider \<lparr>args = cached\<rparr> ''rs'' []) =
     Inr [''sub'' \<mapsto> VString ''alice'', ''exp'' \<mapsto> VFloat64 1000] \<and>
   (\<exists>tok. ParseUnverified provider ''rs'' = Inr tok \<and>
      [''sub'' \<mapsto> VString ''alice'', ''exp'' \<mapsto> VFloat64 1000] = Claims tok)"
proof -
  have accepted: "fst (Validate provider \<lparr>args = cached\<rparr> ''rs'' []) =
     Inr [''sub'' \<mapsto> VString ''alice'', ''exp'' \<mapsto> VFloat64 1000]"
    by (simp add: validate_simps parse_simps PopulatePublicKey_def provider_simps time_simps)
  from Validate_returns_decoded_claims [OF accepted] accepted show ?thesis by blast
qed

section \<open>Further facts about the validator\<close>

subsection \<open>The list of valid methods on the first attempt\<close>

text \<open>
  The parser with the list of valid methods refuses a token of any other method
  without calling the key function.
\<close>

lemma ParseWithClaims_refuses_method:
  assumes "ParseUnverified w s = Inr tok" and "Method tok \<notin> set ms"
  shows "ParseWithClaims w (Some ms) r s = (Inl (ValidationError [SignatureInvalid]), [EvParse])"
  using assms by (simp add: ParseWithClaims_def)

text \<open>
  The parser without a list calls the key function for every token that decodes and
  names its key by a string.
\<close>

lemma ParseWithClaims_looks_up:
  assumes "ParseUnverified w s = Inr tok" and "Header tok ''kid'' = Some (VString kid)"
  shows "snd (ParseWithClaims w None r s) = [EvParse, EvKeyLookup kid]"
  using assms by (simp add: ParseWithClaims_def keyFuncCallback_def Let_def)

subsection \<open>A token that parses is valid\<close>

lemma ParseWithClaims_Valid:
  assumes "fst (ParseWithClaims w vm r s) = Inr t"
  shows "Valid t"
  using ParseWithClaims_Inr [OF assms] by auto

lemma ParseWithClaims_invalid_claims:
  assumes "ParseUnverified w s = Inr tok" and "claims_Valid w (Claims tok) \<noteq> []"
  shows "\<exists>fs. fst (ParseWithClaims w vm r s) = Inl (ValidationError fs)"
  using assms
  by (auto simp: ParseWithClaims_def keyFuncCallback_def Let_def
      split: option.splits sum.splits prod.splits Value.splits)

text \<open>
  A token whose temporal claims do not validate, whatever its signature: the result of
  \<^verbatim>\<open>Validate\<close> is jwt-go's validation error or the error of the refresh.
\<close>

lemma Validate_invalid_claims:
  assumes "ParseUnverified w token = Inr tok" and "claims_Valid w (Claims tok) \<noteq> []"
  shows "(\<exists>fs. fst (Validate w p token dsecs) = Inl (ValidationError fs)) \<or>
         (\<exists>e. fst (PopulatePublicKey w (args p)) = Some e \<and>
              fst (Validate w p token dsecs) = Inl e)"
proof -
  obtain fs1 where f1: "fst (ParseWithClaims w (Some ValidMethods) (args p) token) =
      Inl (ValidationError fs1)"
    using ParseWithClaims_invalid_claims [OF assms] by blast
  obtain err r' evs2 where pp: "PopulatePublicKey w (args p) = (err, r', evs2)"
    by (cases "PopulatePublicKey w (args p)")
  obtain fs3 where f3: "fst (ParseWithClaims w None r' token) = Inl (ValidationError fs3)"
    using ParseWithClaims_invalid_claims [OF assms] by blast
  show ?thesis
  proof (cases err)
    case None
    with f1 pp f3 have "fst (Validate w p token dsecs) = Inl (ValidationError fs3)"
      by (auto simp: Validate_def split: prod.splits sum.splits option.splits)
    then show ?thesis by blast
  next
    case (Some e)
    with f1 pp have "fst (Validate w p token dsecs) = Inl e"
      by (auto simp: Validate_def split: prod.splits sum.splits option.splits)
    with Some pp show ?thesis by simp
  qed
qed

subsection \<open>The overwrite of the expiry claim under a clock that stands still\<close>

text \<open>
  When the three readings of the clock agree, the expiry is representable and the
  remaining validity is not below the smallest duration, the expiry computed at line
  183 is never later than the token's expiry: the branch of line 185 is not taken.
\<close>

lemma expiry_not_later_when_clock_stands:
  assumes "Now w 0 = N" and "Now w 1 = N" and "Now w 2 = N"
    and "minInt64 \<le> expAt + unixToInternal" and "expAt + unixToInternal \<le> maxInt64"
    and "minDuration \<le> expAt * Second - N"
  shows "\<not> expAt < Time_Unix (Time_Add (Now w (snd (clampDuration w expAt d)))
                         (fst (clampDuration w expAt d)))"
proof -
  have T: "time_Unix expAt = expAt * Second"
    using assms(4,5) by (rule time_Unix_exact)
  have pos: "0 < Second" by (simp add: Second_def Nanosecond_def)
  let ?rem = "Time_Sub (expAt * Second) N"
  have sum_le: "N + fst (clampDuration w expAt d) \<le> expAt * Second"
  proof (cases "?rem < d")
    case True
    then have "fst (clampDuration w expAt d) = ?rem"
      using assms(1,2) by (simp add: clampDuration_def T)
    moreover have "?rem \<le> expAt * Second - N"
      using assms(6) by (rule Time_Sub_le_difference)
    ultimately show ?thesis by simp
  next
    case False
    then have eff: "fst (clampDuration w expAt d) = d"
      using assms(1) by (simp add: clampDuration_def T)
    have "?rem \<le> expAt * Second - N"
      using assms(6) by (rule Time_Sub_le_difference)
    with False eff show ?thesis by simp
  qed
  have "Now w (snd (clampDuration w expAt d)) = N"
    using assms(2,3) by (simp add: clampDuration_def)
  then have "Time_Unix (Time_Add (Now w (snd (clampDuration w expAt d)))
                 (fst (clampDuration w expAt d))) =
             (N + fst (clampDuration w expAt d)) div Second"
    by (simp add: Time_Unix_def Time_Add_def)
  also have "\<dots> \<le> (expAt * Second) div Second"
    using sum_le by (rule zdiv_mono1) (rule pos)
  also have "\<dots> = expAt" using pos by simp
  finally show ?thesis by simp
qed

end
